theory Spec2Isabelle
  imports
    Complex_Main
    "HOL-Library.Word"
    "HOL-Library.Sublist"
    "HOL-Library.Multiset"
    "HOL-Library.Char_ord"
    "HOL-Library.List_Lexorder"
begin

unbundle bit_operations_syntax

section \<open>The Go runtime pieces the reporter relies on\<close>

subsection \<open>time.Time\<close>

text \<open>
  A \<^verbatim>\<open>time.Time\<close> is an instant (seconds since January 1, year 1, 00:00:00 UTC, and
  nanoseconds within the second) together with a location. The location is reduced to a
  fixed offset in seconds east of UTC; daylight-saving transitions are not modelled.
  The zero value \<^verbatim>\<open>time.Time{}\<close> is the instant 0 in UTC. Seconds may be negative
  (instants before year 1), as in Go. The monotonic clock reading is dropped: session
  timestamps come from files and never carry one.
\<close>

record Time =
  sec :: int
  nsec :: int
  Location :: int

definition zeroTime :: Time where
  "zeroTime = \<lparr>sec = 0, nsec = 0, Location = 0\<rparr>"

definition IsZero :: "Time \<Rightarrow> bool" where
  "IsZero t = (sec t = 0 \<and> nsec t = 0)"

definition After :: "Time \<Rightarrow> Time \<Rightarrow> bool" where
  "After t u = (sec t > sec u \<or> sec t = sec u \<and> nsec t > nsec u)"

definition Before :: "Time \<Rightarrow> Time \<Rightarrow> bool" where
  "Before t u = (sec t < sec u \<or> sec t = sec u \<and> nsec t < nsec u)"

definition UTC :: "Time \<Rightarrow> Time" where
  "UTC t = t\<lparr>Location := 0\<rparr>"

text \<open>
  The proleptic Gregorian calendar, counted in days since January 1, year 1.
  \<open>daysOfCivil\<close> accepts any day number (day 0 is the last day of the previous month,
  and so on), which is how \<^verbatim>\<open>time.Date\<close> normalises its day argument.
\<close>

definition civilOfDays :: "int \<Rightarrow> int \<times> int \<times> int" where
  "civilOfDays n =
     (let z = n + 306;
          era = z div 146097;
          doe = z mod 146097;
          yoe = (doe - doe div 1460 + doe div 36524 - doe div 146096) div 365;
          doy = doe - (365 * yoe + yoe div 4 - yoe div 100);
          mp = (5 * doy + 2) div 153;
          d = doy - (153 * mp + 2) div 5 + 1;
          m = (if mp < 10 then mp + 3 else mp - 9);
          y = yoe + era * 400 + (if m \<le> 2 then 1 else 0)
      in (y, m, d))"

definition daysOfCivil :: "int \<Rightarrow> int \<Rightarrow> int \<Rightarrow> int" where
  "daysOfCivil y m d =
     (let y' = (if m \<le> 2 then y - 1 else y);
          era = y' div 400;
          yoe = y' mod 400;
          doy = (153 * (if m > 2 then m - 3 else m + 9) + 2) div 5 + d - 1;
          doe = yoe * 365 + yoe div 4 - yoe div 100 + doy
      in era * 146097 + doe - 306)"

definition localDays :: "Time \<Rightarrow> int" where
  "localDays t = (sec t + Location t) div 86400"

definition Year :: "Time \<Rightarrow> int" where
  "Year t = fst (civilOfDays (localDays t))"

definition Month :: "Time \<Rightarrow> int" where
  "Month t = fst (snd (civilOfDays (localDays t)))"

definition Day :: "Time \<Rightarrow> int" where
  "Day t = snd (snd (civilOfDays (localDays t)))"

definition time_Date :: "int \<Rightarrow> int \<Rightarrow> int \<Rightarrow> int \<Rightarrow> int \<Rightarrow> int \<Rightarrow> int \<Rightarrow> int \<Rightarrow> Time" where
  "time_Date year month day hour minute second nano loc =
     (let m0 = month - 1;
          year' = year + m0 div 12;
          month' = m0 mod 12 + 1;
          local = daysOfCivil year' month' day * 86400 + hour * 3600 + minute * 60
                  + second + nano div 1000000000
      in \<lparr>sec = local - loc, nsec = nano mod 1000000000, Location = loc\<rparr>)"

definition AddDate :: "Time \<Rightarrow> int \<Rightarrow> int \<Rightarrow> int \<Rightarrow> Time" where
  "AddDate t years months days =
     (let r = (sec t + Location t) mod 86400
      in time_Date (Year t + years) (Month t + months) (Day t + days)
              (r div 3600) (r mod 3600 div 60) (r mod 60) (nsec t) (Location t))"

subsection \<open>Formatting\<close>

fun digits :: "nat \<Rightarrow> string" where
  "digits n = (if n < 10 then [char_of (48 + n)]
               else digits (n div 10) @ [char_of (48 + n mod 10)])"

declare digits.simps [simp del]

definition appendInt :: "int \<Rightarrow> nat \<Rightarrow> string" where
  "appendInt x width =
     (let ds = digits (nat \<bar>x\<bar>)
      in (if x < 0 then ''-'' else '''') @ replicate (width - length ds) (CHR ''0'') @ ds)"

text \<open>\<^verbatim>\<open>t.Format("2006-01-02")\<close>: the local calendar date of \<open>t\<close>.\<close>

definition Format_2006_01_02 :: "Time \<Rightarrow> string" where
  "Format_2006_01_02 t =
     appendInt (Year t) 4 @ ''-'' @ appendInt (Month t) 2 @ ''-'' @ appendInt (Day t) 2"

text \<open>The verb \<^verbatim>\<open>%d\<close> of \<^verbatim>\<open>fmt.Sprintf\<close> on an \<^verbatim>\<open>int\<close> (64 bits, signed).\<close>

definition Sprintf_d :: "64 word \<Rightarrow> string" where
  "Sprintf_d w = appendInt (sint w) 0"

subsection \<open>Maps, range and sort.Slice\<close>

text \<open>
  A Go map from keys to pointers is an association list with distinct keys; the position
  of an entry in the list carries no meaning. \<open>upsert k init f\<close> is the idiom
  \<^verbatim>\<open>if _, ok := agg[k]; !ok { agg[k] = &init }; p := agg[k]; *p = f(*p)\<close>.
\<close>

fun upsert :: "'k \<Rightarrow> 'v \<Rightarrow> ('v \<Rightarrow> 'v) \<Rightarrow> ('k \<times> 'v) list \<Rightarrow> ('k \<times> 'v) list" where
  "upsert k init f [] = [(k, f init)]"
| "upsert k init f ((k', v) # m) =
     (if k' = k then (k', f v) # m else (k', v) # upsert k init f m)"

text \<open>
  \<^verbatim>\<open>for _, v := range m\<close> visits the entries of a map in an order the language leaves
  open and the runtime randomises. The order is an input of the model: a list of choices,
  each picking the next entry among those not yet visited. Every permutation of the
  entries is the result of some choice list.
\<close>

fun rangeOrder :: "nat list \<Rightarrow> 'a list \<Rightarrow> 'a list" where
  "rangeOrder cs [] = []"
| "rangeOrder [] (x # xs) = x # xs"
| "rangeOrder (c # cs) (x # xs) =
     (let i = c mod length (x # xs)
      in (x # xs) ! i # rangeOrder cs (take i (x # xs) @ drop (Suc i) (x # xs)))"

text \<open>
  \<^verbatim>\<open>sort.Slice(data, less)\<close> is not stable. It is modelled by the insertion sort that the
  Go library runs on slices of fewer than 12 elements: each element in turn moves left
  while it is \<open>less\<close> than its left neighbour. The sorted prefix is kept reversed.
\<close>

fun moveLeft :: "('a \<Rightarrow> 'a \<Rightarrow> bool) \<Rightarrow> 'a \<Rightarrow> 'a list \<Rightarrow> 'a list" where
  "moveLeft lt x [] = [x]"
| "moveLeft lt x (p # ps) = (if lt x p then p # moveLeft lt x ps else x # p # ps)"

definition sortSlice :: "('a \<Rightarrow> 'a \<Rightarrow> bool) \<Rightarrow> 'a list \<Rightarrow> 'a list" where
  "sortSlice lt data = rev (foldl (\<lambda>pre x. moveLeft lt x pre) [] data)"

section \<open>Package parser: the session record\<close>

text \<open>
  Go's \<^verbatim>\<open>int\<close> is a 64-bit word; comparisons on it are signed. Costs are \<^verbatim>\<open>float64\<close>
  in the source. The model is polymorphic in the type \<open>'f\<close> of costs and uses only the
  overloaded \<open>0\<close>, \<open>+\<close>, \<open><\<close> and \<open>/\<close> on it, with no algebraic law assumed, so a
  statement proved for every \<open>'f\<close> holds whatever floating-point arithmetic does; a
  statement that needs a law of arithmetic says so in the sort of \<open>'f\<close>.
  The slice of raw messages of a session is not read by the reporter and is left out.
\<close>

record 'f Usage =
  Input :: "64 word"
  Output :: "64 word"
  Total :: "64 word"
  CacheRead :: "64 word"
  CacheWrite :: "64 word"
  CostInput :: 'f
  CostOutput :: 'f
  CostTotal :: 'f
  Model :: string

type_synonym SessionType = string

abbreviation SessionTypeInteractive :: SessionType where
  "SessionTypeInteractive \<equiv> ''interactive''"

abbreviation SessionTypeCron :: SessionType where
  "SessionTypeCron \<equiv> ''cron''"

abbreviation SessionTypeSubagent :: SessionType where
  "SessionTypeSubagent \<equiv> ''subagent''"

record 'f Session =
  ID :: string
  Agent :: string
  Type :: SessionType
  CronID :: string
  CronName :: string
  SubagentID :: string
  FilePath :: string
  Usage :: "'f Usage"
  StartedAt :: Time
  Duration :: "64 word"

section \<open>Package reporter\<close>

subsection \<open>Types\<close>

record 'f Config =
  Period :: string
  Agent :: string
  Crons :: bool
  Models :: bool
  Full :: bool
  Threshold :: 'f

record 'f AgentSummary =
  Agent :: string
  Sessions :: "64 word"
  TotalCost :: 'f
  InputTokens :: "64 word"
  OutputTokens :: "64 word"
  TotalTokens :: "64 word"

record 'f SessionTypeSummary =
  Type :: SessionType
  Sessions :: "64 word"
  TotalCost :: 'f
  TotalTokens :: "64 word"

record 'f CronSummary =
  CronName :: string
  CronID :: string
  Runs :: "64 word"
  TotalCost :: 'f
  AvgCost :: 'f
  MaxCost :: 'f
  TotalTokens :: "64 word"

record 'f ModelSummary =
  Model :: string
  Sessions :: "64 word"
  TotalCost :: 'f
  InputTokens :: "64 word"
  OutputTokens :: "64 word"
  TotalTokens :: "64 word"

record 'f DaySummary =
  Date :: string
  Sessions :: "64 word"
  TotalCost :: 'f
  TotalTokens :: "64 word"

record 'f Anomaly =
  Type :: string
  Description :: string
  Severity :: string
  Cost :: 'f
  SessionID :: string
  Agent :: string

record 'f SessionDetail =
  ID :: string
  Agent :: string
  Type :: SessionType
  CronName :: string
  Model :: string
  Cost :: 'f
  Tokens :: "64 word"
  StartedAt :: Time
  Duration :: "64 word"

text \<open>
  The slices \<^verbatim>\<open>ByCron\<close> and \<^verbatim>\<open>Sessions\<close> of a report stay \<^verbatim>\<open>nil\<close> unless
  \<^verbatim>\<open>Generate\<close> assigns them; the functions that fill them return a non-nil slice. They are
  options, \<open>None\<close> for \<^verbatim>\<open>nil\<close>.
\<close>

record 'f Report =
  GeneratedAt :: Time
  Period :: string
  TotalCost :: 'f
  TotalTokens :: "64 word"
  TotalSessions :: "64 word"
  ByAgent :: "'f AgentSummary list"
  BySessionType :: "'f SessionTypeSummary list"
  ByCron :: "'f CronSummary list option"
  ByModel :: "'f ModelSummary list"
  ByDay :: "'f DaySummary list"
  Anomalies :: "'f Anomaly list"
  Sessions :: "'f SessionDetail list option"

record 'f Reporter =
  sessions :: "'f Session list"
  config :: "'f Config"

definition New :: "'f Session list \<Rightarrow> 'f Config \<Rightarrow> 'f Reporter" where
  "New ss cfg = \<lparr>sessions = ss, config = cfg\<rparr>"

text \<open>
  What the reporter takes from its surroundings besides its receiver: the conversion
  \<^verbatim>\<open>float64(n)\<close> of an \<^verbatim>\<open>int\<close>, the verb \<^verbatim>\<open>%.2f\<close> of \<^verbatim>\<open>fmt.Sprintf\<close>, the two
  readings of the clock (\<^verbatim>\<open>time.Now()\<close> in \<^verbatim>\<open>filterByPeriod\<close>, then in \<^verbatim>\<open>Generate\<close>),
  and the order in which each of the five maps is ranged over.
\<close>

record 'f Env =
  float64 :: "64 word \<Rightarrow> 'f"
  Sprintf_2f :: "'f \<Rightarrow> string"
  now :: Time
  nowGenerated :: Time
  agentOrder :: "nat list"
  sessionTypeOrder :: "nat list"
  cronOrder :: "nat list"
  modelOrder :: "nat list"
  dayOrder :: "nat list"

subsection \<open>filterByPeriod\<close>

definition filterByPeriod :: "'f Reporter \<Rightarrow> Time \<Rightarrow> 'f Session list \<Rightarrow> 'f Session list" where
  "filterByPeriod r tnow ss =
     (if Config.Period (config r) = '''' \<or> Config.Period (config r) = ''all'' then ss
      else if Config.Period (config r) = ''yesterday'' then
        (let yesterday = AddDate tnow 0 0 (- 1);
             nextDay = time_Date (Year tnow) (Month tnow) (Day tnow) 0 0 0 0 (Location tnow);
             cutoff = time_Date (Year yesterday) (Month yesterday) (Day yesterday) 0 0 0 0
                        (Location yesterday)
         in filter (\<lambda>s. \<not> IsZero (Session.StartedAt s) \<and> After (Session.StartedAt s) cutoff
                         \<and> Before (Session.StartedAt s) nextDay) ss)
      else
        (let cutoff =
               (if Config.Period (config r) = ''today''
                  then time_Date (Year tnow) (Month tnow) (Day tnow) 0 0 0 0 (Location tnow)
                else if Config.Period (config r) = ''week'' then AddDate tnow 0 0 (- 7)
                else if Config.Period (config r) = ''month'' then AddDate tnow 0 (- 1) 0
                else zeroTime)
         in filter (\<lambda>s. \<not> IsZero (Session.StartedAt s) \<and> After (Session.StartedAt s) cutoff)
              ss))"

subsection \<open>The five aggregators\<close>

text \<open>
  Each aggregator fills a map in one pass over the sessions, copies the entries of the map
  into a slice in the order \<^verbatim>\<open>range\<close> yields them, and sorts the slice. The receiver is
  not read by any of them and is left out.
\<close>

definition newAgentSummary :: "string \<Rightarrow> ('f::zero) AgentSummary" where
  "newAgentSummary a =
     \<lparr>AgentSummary.Agent = a, AgentSummary.Sessions = 0, AgentSummary.TotalCost = 0,
      AgentSummary.InputTokens = 0, AgentSummary.OutputTokens = 0,
      AgentSummary.TotalTokens = 0\<rparr>"

definition addToAgent :: "('f::plus) Session \<Rightarrow> 'f AgentSummary \<Rightarrow> 'f AgentSummary" where
  "addToAgent s a =
     a\<lparr>AgentSummary.Sessions := AgentSummary.Sessions a + 1,
       AgentSummary.TotalCost := AgentSummary.TotalCost a + CostTotal (Usage s),
       AgentSummary.InputTokens := AgentSummary.InputTokens a + Input (Usage s),
       AgentSummary.OutputTokens := AgentSummary.OutputTokens a + Output (Usage s),
       AgentSummary.TotalTokens := AgentSummary.TotalTokens a + Total (Usage s)\<rparr>"

definition agentMap :: "('f::{zero,plus}) Session list \<Rightarrow> (string \<times> 'f AgentSummary) list" where
  "agentMap ss =
     foldl (\<lambda>agg s. upsert (Session.Agent s) (newAgentSummary (Session.Agent s))
                       (addToAgent s) agg) [] ss"

definition aggregateByAgent ::
  "nat list \<Rightarrow> ('f::{zero,plus,ord}) Session list \<Rightarrow> 'f AgentSummary list" where
  "aggregateByAgent order ss =
     sortSlice (\<lambda>a b. AgentSummary.TotalCost a > AgentSummary.TotalCost b)
       (rangeOrder order (map snd (agentMap ss)))"

definition newSessionTypeSummary :: "SessionType \<Rightarrow> ('f::zero) SessionTypeSummary" where
  "newSessionTypeSummary t =
     \<lparr>SessionTypeSummary.Type = t, SessionTypeSummary.Sessions = 0,
      SessionTypeSummary.TotalCost = 0, SessionTypeSummary.TotalTokens = 0\<rparr>"

definition addToSessionType ::
  "('f::plus) Session \<Rightarrow> 'f SessionTypeSummary \<Rightarrow> 'f SessionTypeSummary" where
  "addToSessionType s t =
     t\<lparr>SessionTypeSummary.Sessions := SessionTypeSummary.Sessions t + 1,
       SessionTypeSummary.TotalCost := SessionTypeSummary.TotalCost t + CostTotal (Usage s),
       SessionTypeSummary.TotalTokens := SessionTypeSummary.TotalTokens t + Total (Usage s)\<rparr>"

definition sessionTypeMap ::
  "('f::{zero,plus}) Session list \<Rightarrow> (SessionType \<times> 'f SessionTypeSummary) list" where
  "sessionTypeMap ss =
     foldl (\<lambda>agg s. upsert (Session.Type s) (newSessionTypeSummary (Session.Type s))
                       (addToSessionType s) agg) [] ss"

text \<open>The map literal \<^verbatim>\<open>order\<close>; a key that is not in a Go map reads as 0.\<close>

definition typeOrder :: "SessionType \<Rightarrow> int" where
  "typeOrder t =
     (if t = SessionTypeInteractive then 0
      else if t = SessionTypeCron then 1
      else if t = SessionTypeSubagent then 2
      else 0)"

definition aggregateBySessionType ::
  "nat list \<Rightarrow> ('f::{zero,plus}) Session list \<Rightarrow> 'f SessionTypeSummary list" where
  "aggregateBySessionType order ss =
     sortSlice (\<lambda>a b. typeOrder (SessionTypeSummary.Type a) < typeOrder (SessionTypeSummary.Type b))
       (rangeOrder order (map snd (sessionTypeMap ss)))"

definition newCronSummary :: "string \<times> string \<Rightarrow> ('f::zero) CronSummary" where
  "newCronSummary key =
     \<lparr>CronSummary.CronName = fst key, CronSummary.CronID = snd key, Runs = 0,
      CronSummary.TotalCost = 0, AvgCost = 0, MaxCost = 0, CronSummary.TotalTokens = 0\<rparr>"

definition addToCron :: "('f::{plus,ord}) Session \<Rightarrow> 'f CronSummary \<Rightarrow> 'f CronSummary" where
  "addToCron s c =
     (let c1 = c\<lparr>Runs := Runs c + 1,
                  CronSummary.TotalCost := CronSummary.TotalCost c + CostTotal (Usage s),
                  CronSummary.TotalTokens := CronSummary.TotalTokens c + Total (Usage s)\<rparr>
      in if CostTotal (Usage s) > MaxCost c1 then c1\<lparr>MaxCost := CostTotal (Usage s)\<rparr> else c1)"

definition cronMap ::
  "('f::{zero,plus,ord}) Session list \<Rightarrow> ((string \<times> string) \<times> 'f CronSummary) list" where
  "cronMap ss =
     foldl (\<lambda>agg s. if Session.Type s \<noteq> SessionTypeCron then agg
                     else upsert (Session.CronName s, Session.CronID s)
                            (newCronSummary (Session.CronName s, Session.CronID s))
                            (addToCron s) agg) [] ss"

definition setAvgCost :: "(64 word \<Rightarrow> 'f) \<Rightarrow> ('f::inverse) CronSummary \<Rightarrow> 'f CronSummary" where
  "setAvgCost toFloat c =
     (if 0 <s Runs c then c\<lparr>AvgCost := CronSummary.TotalCost c / toFloat (Runs c)\<rparr> else c)"

definition aggregateByCron ::
  "(64 word \<Rightarrow> 'f) \<Rightarrow> nat list \<Rightarrow> ('f::{zero,plus,ord,inverse}) Session list
     \<Rightarrow> 'f CronSummary list" where
  "aggregateByCron toFloat order ss =
     sortSlice (\<lambda>a b. CronSummary.TotalCost a > CronSummary.TotalCost b)
       (map (setAvgCost toFloat) (rangeOrder order (map snd (cronMap ss))))"

definition newModelSummary :: "string \<Rightarrow> ('f::zero) ModelSummary" where
  "newModelSummary m =
     \<lparr>ModelSummary.Model = m, ModelSummary.Sessions = 0, ModelSummary.TotalCost = 0,
      ModelSummary.InputTokens = 0, ModelSummary.OutputTokens = 0,
      ModelSummary.TotalTokens = 0\<rparr>"

definition addToModel :: "('f::plus) Session \<Rightarrow> 'f ModelSummary \<Rightarrow> 'f ModelSummary" where
  "addToModel s m =
     m\<lparr>ModelSummary.Sessions := ModelSummary.Sessions m + 1,
       ModelSummary.TotalCost := ModelSummary.TotalCost m + CostTotal (Usage s),
       ModelSummary.InputTokens := ModelSummary.InputTokens m + Input (Usage s),
       ModelSummary.OutputTokens := ModelSummary.OutputTokens m + Output (Usage s),
       ModelSummary.TotalTokens := ModelSummary.TotalTokens m + Total (Usage s)\<rparr>"

definition modelKey :: "'f Session \<Rightarrow> string" where
  "modelKey s = (if Usage.Model (Usage s) = '''' then ''unknown'' else Usage.Model (Usage s))"

definition modelMap :: "('f::{zero,plus}) Session list \<Rightarrow> (string \<times> 'f ModelSummary) list" where
  "modelMap ss =
     foldl (\<lambda>agg s. upsert (modelKey s) (newModelSummary (modelKey s)) (addToModel s) agg) [] ss"

definition aggregateByModel ::
  "nat list \<Rightarrow> ('f::{zero,plus,ord}) Session list \<Rightarrow> 'f ModelSummary list" where
  "aggregateByModel order ss =
     sortSlice (\<lambda>a b. ModelSummary.TotalCost a > ModelSummary.TotalCost b)
       (rangeOrder order (map snd (modelMap ss)))"

definition newDaySummary :: "string \<Rightarrow> ('f::zero) DaySummary" where
  "newDaySummary d =
     \<lparr>DaySummary.Date = d, DaySummary.Sessions = 0, DaySummary.TotalCost = 0,
      DaySummary.TotalTokens = 0\<rparr>"

definition addToDay :: "('f::plus) Session \<Rightarrow> 'f DaySummary \<Rightarrow> 'f DaySummary" where
  "addToDay s d =
     d\<lparr>DaySummary.Sessions := DaySummary.Sessions d + 1,
       DaySummary.TotalCost := DaySummary.TotalCost d + CostTotal (Usage s),
       DaySummary.TotalTokens := DaySummary.TotalTokens d + Total (Usage s)\<rparr>"

definition dayMap :: "('f::{zero,plus}) Session list \<Rightarrow> (string \<times> 'f DaySummary) list" where
  "dayMap ss =
     foldl (\<lambda>agg s. if IsZero (Session.StartedAt s) then agg
                     else upsert (Format_2006_01_02 (Session.StartedAt s))
                            (newDaySummary (Format_2006_01_02 (Session.StartedAt s)))
                            (addToDay s) agg) [] ss"

definition aggregateByDay ::
  "nat list \<Rightarrow> ('f::{zero,plus}) Session list \<Rightarrow> 'f DaySummary list" where
  "aggregateByDay order ss =
     sortSlice (\<lambda>a b. DaySummary.Date a < DaySummary.Date b)
       (rangeOrder order (map snd (dayMap ss)))"

subsection \<open>Anomalies\<close>

function findInStringFrom :: "int \<Rightarrow> string \<Rightarrow> string \<Rightarrow> bool" where
  "findInStringFrom i s substr =
     (if i \<le> int (length s) - int (length substr) then
        (if take (length substr) (drop (nat i) s) = substr then True
         else findInStringFrom (i + 1) s substr)
      else False)"
  by pat_completeness auto
termination
  by (relation "measure (\<lambda>(i, s, substr). nat (int (length s) - int (length substr) + 1 - i))")
    auto

declare findInStringFrom.simps [simp del]

definition findInString :: "string \<Rightarrow> string \<Rightarrow> bool" where
  "findInString s substr = findInStringFrom 0 s substr"

definition contains :: "string \<Rightarrow> string \<Rightarrow> bool" where
  "contains s substr =
     (length s \<ge> length substr \<and>
      (s = substr \<or> length substr = 0 \<or>
       take (length substr) s = substr \<or>
       drop (length s - length substr) s = substr \<or>
       findInString s substr))"

definition opusModels :: "string list" where
  "opusModels = [''opus'', ''claude-opus'', ''claude-3-opus'']"

definition containsOpus :: "string \<Rightarrow> bool" where
  "containsOpus model = list_ex (\<lambda>opus. contains model opus) opusModels"

definition expensiveCron :: "'f Env \<Rightarrow> 'f Reporter \<Rightarrow> 'f Session \<Rightarrow> 'f Anomaly" where
  "expensiveCron env r s =
     \<lparr>Anomaly.Type = ''expensive_cron'',
      Description = ''Cron '' @ Session.CronName s @ '' exceeded $''
                      @ Sprintf_2f env (Threshold (config r)) @ '' threshold'',
      Severity = ''warning'',
      Anomaly.Cost = CostTotal (Usage s),
      SessionID = Session.ID s,
      Anomaly.Agent = Session.Agent s\<rparr>"

definition highTokenCount :: "'f Session \<Rightarrow> 'f Anomaly" where
  "highTokenCount s =
     \<lparr>Anomaly.Type = ''high_token_count'',
      Description = ''Session has unusually high token count (''
                      @ Sprintf_d (Total (Usage s)) @ '')'',
      Severity = ''warning'',
      Anomaly.Cost = CostTotal (Usage s),
      SessionID = Session.ID s,
      Anomaly.Agent = Session.Agent s\<rparr>"

definition opusOverkill :: "'f Session \<Rightarrow> 'f Anomaly" where
  "opusOverkill s =
     \<lparr>Anomaly.Type = ''opus_overkill'',
      Description = ''Opus model used for small request (''
                      @ Sprintf_d (Total (Usage s)) @ '' tokens), consider cheaper model'',
      Severity = ''info'',
      Anomaly.Cost = CostTotal (Usage s),
      SessionID = Session.ID s,
      Anomaly.Agent = Session.Agent s\<rparr>"

definition detectAnomalies ::
  "('f::ord) Env \<Rightarrow> 'f Reporter \<Rightarrow> 'f Session list \<Rightarrow> 'f Anomaly list" where
  "detectAnomalies env r ss =
     (let anomalies = [];
          anomalies =
            foldl (\<lambda>anomalies s.
                     if Session.Type s = SessionTypeCron
                        \<and> CostTotal (Usage s) > Threshold (config r)
                     then anomalies @ [expensiveCron env r s] else anomalies)
              anomalies ss;
          anomalies =
            foldl (\<lambda>anomalies s.
                     if 100000 <s Total (Usage s)
                     then anomalies @ [highTokenCount s] else anomalies)
              anomalies ss;
          anomalies =
            foldl (\<lambda>anomalies s.
                     if containsOpus (Usage.Model (Usage s)) \<and> Total (Usage s) <s 5000
                     then anomalies @ [opusOverkill s] else anomalies)
              anomalies ss
      in anomalies)"

subsection \<open>Session details and the report\<close>

definition sessionDetail :: "'f Session \<Rightarrow> 'f SessionDetail" where
  "sessionDetail s =
     \<lparr>SessionDetail.ID = Session.ID s,
      SessionDetail.Agent = Session.Agent s,
      SessionDetail.Type = Session.Type s,
      SessionDetail.CronName = Session.CronName s,
      SessionDetail.Model = Usage.Model (Usage s),
      SessionDetail.Cost = CostTotal (Usage s),
      Tokens = Total (Usage s),
      SessionDetail.StartedAt = Session.StartedAt s,
      SessionDetail.Duration = Session.Duration s\<rparr>"

definition getSessionDetails :: "('f::ord) Session list \<Rightarrow> 'f SessionDetail list" where
  "getSessionDetails ss =
     sortSlice (\<lambda>a b. SessionDetail.Cost a > SessionDetail.Cost b) (map sessionDetail ss)"

definition addToTotals :: "('f::plus) Session \<Rightarrow> 'f Report \<Rightarrow> 'f Report" where
  "addToTotals s report =
     report\<lparr>Report.TotalCost := Report.TotalCost report + CostTotal (Usage s),
            Report.TotalTokens := Report.TotalTokens report + Total (Usage s),
            TotalSessions := TotalSessions report + 1\<rparr>"

definition Generate ::
  "('f::{zero,plus,ord,inverse}) Env \<Rightarrow> 'f Reporter \<Rightarrow> 'f Report" where
  "Generate env r =
     (let filtered = filterByPeriod r (now env) (sessions r);
          report = \<lparr>GeneratedAt = UTC (nowGenerated env),
                    Report.Period = Config.Period (config r),
                    Report.TotalCost = 0, Report.TotalTokens = 0, TotalSessions = 0,
                    ByAgent = [], BySessionType = [], ByCron = None, ByModel = [],
                    ByDay = [], Anomalies = [], Report.Sessions = None\<rparr>;
          report = foldl (\<lambda>report s. addToTotals s report) report filtered;
          report = report\<lparr>ByAgent := aggregateByAgent (agentOrder env) filtered\<rparr>;
          report = report\<lparr>BySessionType :=
                             aggregateBySessionType (sessionTypeOrder env) filtered\<rparr>;
          report = report\<lparr>ByModel := aggregateByModel (modelOrder env) filtered\<rparr>;
          report = report\<lparr>ByDay := aggregateByDay (dayOrder env) filtered\<rparr>;
          report = (if Crons (config r) \<or> Full (config r)
                    then report\<lparr>ByCron :=
                                  Some (aggregateByCron (float64 env) (cronOrder env) filtered)\<rparr>
                    else report);
          report = (if Full (config r)
                    then report\<lparr>Report.Sessions := Some (getSessionDetails filtered)\<rparr>
                    else report);
          report = report\<lparr>Anomalies := detectAnomalies env r filtered\<rparr>
      in report)"

section \<open>Sample inputs\<close>

text \<open>
  Struct literals in the style of the package's tests: the fields that are not given are
  the zero values of their types.
\<close>

definition periodConfig :: "string \<Rightarrow> ('f::zero) Config" where
  "periodConfig p =
     \<lparr>Config.Period = p, Config.Agent = '''', Crons = False, Models = False, Full = False,
      Threshold = 0\<rparr>"

definition mkSession ::
  "string \<Rightarrow> string \<Rightarrow> SessionType \<Rightarrow> 'f \<Rightarrow> 64 word \<Rightarrow> string \<Rightarrow> Time \<Rightarrow> ('f::zero) Session" where
  "mkSession sid agent ty cost tokens model started =
     \<lparr>Session.ID = sid, Session.Agent = agent, Session.Type = ty, Session.CronID = '''',
      Session.CronName = '''', SubagentID = '''', FilePath = '''',
      Usage = \<lparr>Input = 0, Output = 0, Total = tokens, CacheRead = 0, CacheWrite = 0,
               CostInput = 0, CostOutput = 0, CostTotal = cost, Usage.Model = model\<rparr>,
      Session.StartedAt = started, Session.Duration = 0\<rparr>"

definition sessionAt :: "Time \<Rightarrow> ('f::zero) Session" where
  "sessionAt t = mkSession '''' '''' SessionTypeInteractive 0 0 '''' t"

text \<open>March 10, 2026, 15:30:00 in a zone one hour east of UTC.\<close>

definition exampleNow :: Time where
  "exampleNow = time_Date 2026 3 10 15 30 0 0 3600"

text \<open>The local variable \<^verbatim>\<open>filtered\<close> of \<^verbatim>\<open>Generate\<close>.\<close>

definition filtered :: "('f::{zero,plus,ord,inverse}) Env \<Rightarrow> 'f Reporter \<Rightarrow> 'f Session list" where
  "filtered env r = filterByPeriod r (now env) (sessions r)"

text \<open>
  A sample environment over exact rational costs: \<^verbatim>\<open>%.2f\<close> rounds to two decimals, ties
  to even; the clock reads \<open>exampleNow\<close>; every map is ranged over in the order of first
  insertion.
\<close>

definition Sprintf_2f_exact :: "rat \<Rightarrow> string" where
  "Sprintf_2f_exact x =
     (let h = \<bar>x\<bar> * 100;
          n = (if h - of_int \<lfloor>h\<rfloor> < 1 / 2 then \<lfloor>h\<rfloor>
               else if h - of_int \<lfloor>h\<rfloor> > 1 / 2 then \<lfloor>h\<rfloor> + 1
               else if even \<lfloor>h\<rfloor> then \<lfloor>h\<rfloor> else \<lfloor>h\<rfloor> + 1)
      in (if x < 0 then ''-'' else '''') @ appendInt (n div 100) 0 @ ''.'' @ appendInt (n mod 100) 2)"

definition exampleEnv :: "rat Env" where
  "exampleEnv =
     \<lparr>float64 = (\<lambda>n. of_int (sint n)), Sprintf_2f = Sprintf_2f_exact,
      now = exampleNow, nowGenerated = exampleNow,
      agentOrder = [], sessionTypeOrder = [], cronOrder = [], modelOrder = [], dayOrder = []\<rparr>"

section \<open>Lemmas about the runtime pieces\<close>

lemma mset_moveLeft: "mset (moveLeft lt x ps) = add_mset x (mset ps)"
  by (induction ps) auto

lemma mset_foldl_moveLeft:
  "mset (foldl (\<lambda>pre x. moveLeft lt x pre) acc xs) = mset acc + mset xs"
  by (induction xs arbitrary: acc) (auto simp: mset_moveLeft)

lemma mset_sortSlice: "mset (sortSlice lt xs) = mset xs"
  by (simp add: sortSlice_def mset_foldl_moveLeft)

lemma set_sortSlice: "set (sortSlice lt xs) = set xs"
  using mset_sortSlice [of lt xs] by (metis set_mset_mset)

lemma length_sortSlice: "length (sortSlice lt xs) = length xs"
  using mset_sortSlice [of lt xs] by (metis size_mset)

lemma mset_rangeOrder: "mset (rangeOrder cs xs) = mset xs"
proof (induction cs xs rule: rangeOrder.induct)
  case (3 c cs x xs)
  let ?ys = "x # xs"
  let ?i = "c mod length ?ys"
  have i: "?i < length ?ys" by simp
  have "mset ?ys = mset (take ?i ?ys @ ?ys ! ?i # drop (Suc ?i) ?ys)"
    using id_take_nth_drop [OF i] by simp
  with 3 show ?case by (simp add: Let_def)
qed simp_all

lemma set_rangeOrder: "set (rangeOrder cs xs) = set xs"
  using mset_rangeOrder [of cs xs] by (metis set_mset_mset)

lemma sorted_moveLeft:
  assumes asym: "\<And>a b. lt a b \<Longrightarrow> \<not> lt b a"
    and negtrans: "\<And>a b c. \<not> lt a b \<Longrightarrow> \<not> lt b c \<Longrightarrow> \<not> lt a c"
    and srt: "sorted_wrt (\<lambda>a b. \<not> lt a b) ps"
  shows "sorted_wrt (\<lambda>a b. \<not> lt a b) (moveLeft lt x ps)"
  using srt
proof (induction ps)
  case Nil
  then show ?case by simp
next
  case (Cons p ps)
  show ?case
  proof (cases "lt x p")
    case True
    have "\<forall>q\<in>set (moveLeft lt x ps). \<not> lt p q"
      using Cons.prems True asym
      by (metis mset_moveLeft set_mset_add_mset_insert set_mset_mset insertE sorted_wrt.simps(2))
    with Cons True show ?thesis by simp
  next
    case False
    have "\<forall>q\<in>set ps. \<not> lt x q"
      using Cons.prems False negtrans by auto
    with Cons.prems False show ?thesis by simp
  qed
qed

lemma sorted_foldl_moveLeft:
  assumes asym: "\<And>a b. lt a b \<Longrightarrow> \<not> lt b a"
    and negtrans: "\<And>a b c. \<not> lt a b \<Longrightarrow> \<not> lt b c \<Longrightarrow> \<not> lt a c"
  shows "sorted_wrt (\<lambda>a b. \<not> lt a b) acc \<Longrightarrow>
         sorted_wrt (\<lambda>a b. \<not> lt a b) (foldl (\<lambda>pre x. moveLeft lt x pre) acc xs)"
proof (induction xs arbitrary: acc)
  case Nil
  then show ?case by simp
next
  case (Cons x xs)
  then show ?case using sorted_moveLeft [of lt acc x, OF asym negtrans] by simp
qed

lemma sorted_sortSlice:
  assumes asym: "\<And>a b. lt a b \<Longrightarrow> \<not> lt b a"
    and negtrans: "\<And>a b c. \<not> lt a b \<Longrightarrow> \<not> lt b c \<Longrightarrow> \<not> lt a c"
  shows "sorted_wrt (\<lambda>a b. \<not> lt b a) (sortSlice lt xs)"
proof -
  have "sorted_wrt (\<lambda>a b. \<not> lt a b) (foldl (\<lambda>pre x. moveLeft lt x pre) [] xs)"
    using sorted_foldl_moveLeft [of lt "[]" xs, OF asym negtrans] by simp
  then show ?thesis
    by (simp add: sortSlice_def sorted_wrt_rev)
qed

lemma sortSlice_desc:
  fixes key :: "'a \<Rightarrow> 'k::linorder"
  shows "sorted_wrt (\<lambda>a b. key a \<ge> key b) (sortSlice (\<lambda>a b. key a > key b) xs)"
  using sorted_sortSlice [of "\<lambda>a b. key a > key b" xs]
  by (simp add: not_less)

lemma sortSlice_asc:
  fixes key :: "'a \<Rightarrow> 'k::linorder"
  shows "sorted_wrt (\<lambda>a b. key a \<le> key b) (sortSlice (\<lambda>a b. key a < key b) xs)"
  using sorted_sortSlice [of "\<lambda>a b. key a < key b" xs]
  by (simp add: not_less)

lemma fst_upsert:
  "map fst (upsert k i f m) = (if k \<in> fst ` set m then map fst m else map fst m @ [k])"
  by (induction m) (auto split: if_splits)

lemma distinct_upsert: "distinct (map fst m) \<Longrightarrow> distinct (map fst (upsert k i f m))"
  by (simp add: fst_upsert)

lemma map_of_upsert:
  "map_of (upsert k i f m) =
     (map_of m)(k \<mapsto> f (case map_of m k of None \<Rightarrow> i | Some v \<Rightarrow> v))"
  by (induction m) (auto simp: fun_eq_iff)

lemma sumOf_acc:
  fixes a :: "'m::comm_monoid_add"
  shows "foldl (+) a xs = a + sum_list xs"
  by (induction xs arbitrary: a) (simp_all add: add.assoc)

lemma sum_upsert:
  fixes g :: "'v \<Rightarrow> 'm::comm_monoid_add"
  assumes "\<And>v. g (f v) = g v + d" and "g i = 0"
  shows "sum_list (map (\<lambda>e. g (snd e)) (upsert k i f m)) = sum_list (map (\<lambda>e. g (snd e)) m) + d"
  using assms by (induction m) (auto simp: add_ac)

lemma sum_group_fold:
  fixes g :: "'v \<Rightarrow> 'm::comm_monoid_add"
  assumes upd: "\<And>s v. g (upd s v) = g v + h s" and init: "\<And>k. g (init k) = 0"
  shows "sum_list (map (\<lambda>e. g (snd e))
           (foldl (\<lambda>agg s. if skip s then agg else upsert (key s) (init (key s)) (upd s) agg) m ss))
         = sum_list (map (\<lambda>e. g (snd e)) m) + sum_list (map h (filter (\<lambda>s. \<not> skip s) ss))"
proof (induction ss arbitrary: m)
  case Nil
  then show ?case by simp
next
  case (Cons s ss)
  show ?case
  proof (cases "\<not> skip s")
    case True
    have "sum_list (map (\<lambda>e. g (snd e)) (upsert (key s) (init (key s)) (upd s) m))
          = sum_list (map (\<lambda>e. g (snd e)) m) + h s"
      by (rule sum_upsert) (simp_all add: upd init)
    with True Cons.IH [of "upsert (key s) (init (key s)) (upd s) m"] show ?thesis
      by (simp add: add.assoc)
  next
    case False
    with Cons.IH [of m] show ?thesis by simp
  qed
qed

lemma sum_list_mset_cong:
  fixes g :: "'v \<Rightarrow> 'm::comm_monoid_add"
  shows "mset xs = mset ys \<Longrightarrow> sum_list (map g xs) = sum_list (map g ys)"
  by (metis mset_map sum_mset_sum_list)

lemma sum_sorted_range:
  fixes g :: "'v \<Rightarrow> 'm::comm_monoid_add"
  shows "sum_list (map g (sortSlice lt (rangeOrder cs (map snd m))))
         = sum_list (map (\<lambda>e. g (snd e)) m)"
proof -
  have "mset (sortSlice lt (rangeOrder cs (map snd m))) = mset (map snd m)"
    by (simp add: mset_sortSlice mset_rangeOrder)
  then have "sum_list (map g (sortSlice lt (rangeOrder cs (map snd m)))) = sum_list (map g (map snd m))"
    by (rule sum_list_mset_cong)
  then show ?thesis by (simp add: comp_def)
qed

section \<open>Lemmas about filling a map\<close>

lemma set_upsert_inv:
  assumes "\<forall>(k', v)\<in>set m. P k' v" and "P k (f i)" and "\<And>v. P k v \<Longrightarrow> P k (f v)"
  shows "\<forall>(k', v)\<in>set (upsert k i f m). P k' v"
  using assms by (induction m) (auto split: if_splits)

lemma group_fold_inv:
  assumes m: "\<forall>(k, v)\<in>set m. P k v"
    and init: "\<And>s. \<not> skip s \<Longrightarrow> P (key s) (upd s (init (key s)))"
    and upd: "\<And>s v. \<not> skip s \<Longrightarrow> P (key s) v \<Longrightarrow> P (key s) (upd s v)"
  shows "\<forall>(k, v)\<in>set (foldl (\<lambda>agg s. if skip s then agg
                                        else upsert (key s) (init (key s)) (upd s) agg) m ss). P k v"
  using m
proof (induction ss arbitrary: m)
  case Nil
  then show ?case by simp
next
  case (Cons s ss)
  show ?case
  proof (cases "\<not> skip s")
    case True
    have "\<forall>(k, v)\<in>set (upsert (key s) (init (key s)) (upd s) m). P k v"
      using Cons.prems init [OF True] upd [OF True] by (rule set_upsert_inv)
    from Cons.IH [OF this] True show ?thesis by simp
  next
    case False
    with Cons.IH [OF Cons.prems] show ?thesis by simp
  qed
qed

lemma group_fold_distinct:
  "distinct (map fst m) \<Longrightarrow>
   distinct (map fst (foldl (\<lambda>agg s. if skip s then agg
                                      else upsert (key s) (init (key s)) (upd s) agg) m ss))"
  by (induction ss arbitrary: m) (simp_all add: distinct_upsert)

lemma map_of_group_fold:
  "map_of (foldl (\<lambda>agg s. if skip s then agg else upsert (key s) (init (key s)) (upd s) agg) m ss) k
   = (if filter (\<lambda>s. \<not> skip s \<and> key s = k) ss = [] then map_of m k
      else Some (foldl (\<lambda>v s. upd s v) (case map_of m k of None \<Rightarrow> init k | Some v \<Rightarrow> v)
                   (filter (\<lambda>s. \<not> skip s \<and> key s = k) ss)))"
proof (induction ss arbitrary: m)
  case Nil
  then show ?case by simp
next
  case (Cons s ss)
  show ?case
  proof (cases "\<not> skip s")
    case False
    with Cons.IH [of m] show ?thesis by simp
  next
    case True
    let ?m' = "upsert (key s) (init (key s)) (upd s) m"
    show ?thesis
    proof (cases "key s = k")
      case False
      then have "map_of ?m' k = map_of m k" by (simp add: map_of_upsert)
      with Cons.IH [of ?m'] True False show ?thesis by simp
    next
      case k: True
      have "map_of ?m' k = Some (upd s (case map_of m k of None \<Rightarrow> init k | Some v \<Rightarrow> v))"
        using k by (simp add: map_of_upsert)
      with Cons.IH [of ?m'] True k show ?thesis by simp
    qed
  qed
qed

lemma group_fold_entry:
  assumes "(k, v) \<in> set (foldl (\<lambda>agg s. if skip s then agg
                                         else upsert (key s) (init (key s)) (upd s) agg) [] ss)"
  shows "filter (\<lambda>s. \<not> skip s \<and> key s = k) ss \<noteq> [] \<and>
         v = foldl (\<lambda>v s. upd s v) (init k) (filter (\<lambda>s. \<not> skip s \<and> key s = k) ss)"
proof -
  let ?M = "foldl (\<lambda>agg s. if skip s then agg else upsert (key s) (init (key s)) (upd s) agg) [] ss"
  have "distinct (map fst ?M)" by (rule group_fold_distinct) simp
  with assms have "map_of ?M k = Some v" by simp
  then show ?thesis
    by (simp add: map_of_group_fold split: if_splits)
qed

lemma group_fold_keys:
  "fst ` set (foldl (\<lambda>agg s. if skip s then agg else upsert (key s) (init (key s)) (upd s) agg) m ss)
   = fst ` set m \<union> key ` {s \<in> set ss. \<not> skip s}"
proof -
  have "dom (map_of (foldl (\<lambda>agg s. if skip s then agg
                                    else upsert (key s) (init (key s)) (upd s) agg) m ss))
        = dom (map_of m) \<union> key ` {s \<in> set ss. \<not> skip s}"
    by (auto simp: map_of_group_fold dom_def filter_empty_conv split: if_splits)
  then show ?thesis by (simp add: dom_map_of_conv_image_fst)
qed

section \<open>Lemmas about the reporter\<close>

lemma foldl_addToTotals:
  "foldl (\<lambda>report s. addToTotals s report) rep ss =
     rep\<lparr>Report.TotalCost := foldl (+) (Report.TotalCost rep) (map (\<lambda>s. CostTotal (Usage s)) ss),
         Report.TotalTokens := Report.TotalTokens rep + sum_list (map (\<lambda>s. Total (Usage s)) ss),
         TotalSessions := TotalSessions rep + of_nat (length ss)\<rparr>"
proof (induction ss arbitrary: rep)
  case Nil
  then show ?case by simp
next
  case (Cons s ss)
  have "foldl (\<lambda>report s. addToTotals s report) rep (s # ss)
        = foldl (\<lambda>report s. addToTotals s report) (addToTotals s rep) ss"
    by simp
  also note Cons.IH [of "addToTotals s rep"]
  also have "(addToTotals s rep)
      \<lparr>Report.TotalCost := foldl (+) (Report.TotalCost (addToTotals s rep))
                                (map (\<lambda>s. CostTotal (Usage s)) ss),
       Report.TotalTokens := Report.TotalTokens (addToTotals s rep)
                                + sum_list (map (\<lambda>s. Total (Usage s)) ss),
       TotalSessions := TotalSessions (addToTotals s rep) + of_nat (length ss)\<rparr>
     = rep\<lparr>Report.TotalCost := foldl (+) (Report.TotalCost rep)
                                (map (\<lambda>s. CostTotal (Usage s)) (s # ss)),
         Report.TotalTokens := Report.TotalTokens rep
                                + sum_list (map (\<lambda>s. Total (Usage s)) (s # ss)),
         TotalSessions := TotalSessions rep + of_nat (length (s # ss))\<rparr>"
    by (simp add: addToTotals_def add.assoc)
  finally show ?case .
qed

lemma Generate_fields:
  "ByAgent (Generate env r) = aggregateByAgent (agentOrder env) (filtered env r)"
  "BySessionType (Generate env r) = aggregateBySessionType (sessionTypeOrder env) (filtered env r)"
  "ByModel (Generate env r) = aggregateByModel (modelOrder env) (filtered env r)"
  "ByDay (Generate env r) = aggregateByDay (dayOrder env) (filtered env r)"
  "ByCron (Generate env r) =
     (if Crons (config r) \<or> Full (config r)
      then Some (aggregateByCron (float64 env) (cronOrder env) (filtered env r)) else None)"
  "Report.Sessions (Generate env r) =
     (if Full (config r) then Some (getSessionDetails (filtered env r)) else None)"
  "Anomalies (Generate env r) = detectAnomalies env r (filtered env r)"
  "GeneratedAt (Generate env r) = UTC (nowGenerated env)"
  "Report.Period (Generate env r) = Config.Period (config r)"
  "Report.TotalCost (Generate env r) = foldl (+) 0 (map (\<lambda>s. CostTotal (Usage s)) (filtered env r))"
  "Report.TotalTokens (Generate env r) = sum_list (map (\<lambda>s. Total (Usage s)) (filtered env r))"
  "TotalSessions (Generate env r) = of_nat (length (filtered env r))"
  by (simp_all add: Generate_def Let_def foldl_addToTotals filtered_def)

lemma exampleNow_facts:
  "After exampleNow
     (time_Date (Year exampleNow) (Month exampleNow) (Day exampleNow) 0 0 0 0 (Location exampleNow))"
  "\<not> IsZero exampleNow" "IsZero zeroTime"
  by code_simp+

lemma sessions_New: "sessions (New ss cfg) = ss"
  by (simp add: New_def)

lemma foldl_skip_filter:
  "foldl (\<lambda>agg s. if skip s then agg else g s agg) m ss
   = foldl (\<lambda>agg s. if skip s then agg else g s agg) m (filter (\<lambda>s. \<not> skip s) ss)"
  by (induction ss arbitrary: m) simp_all

lemma dayMap_filter: "dayMap ss = dayMap (filter (\<lambda>s. \<not> IsZero (Session.StartedAt s)) ss)"
  unfolding dayMap_def by (rule foldl_skip_filter)

lemma foldl_append_if:
  "foldl (\<lambda>acc s. if p s then acc @ [f s] else acc) acc ss = acc @ map f (filter p ss)"
  by (induction ss arbitrary: acc) simp_all

lemma findInStringFrom_iff:
  "0 \<le> i \<Longrightarrow>
   findInStringFrom i s sub \<longleftrightarrow>
     (\<exists>j. i \<le> j \<and> j \<le> int (length s) - int (length sub) \<and>
          take (length sub) (drop (nat j) s) = sub)"
proof (induction i s sub rule: findInStringFrom.induct)
  case (1 i s sub)
  show ?case
  proof (cases "i \<le> int (length s) - int (length sub)")
    case False
    then show ?thesis by (subst findInStringFrom.simps) auto
  next
    case le: True
    show ?thesis
    proof (cases "take (length sub) (drop (nat i) s) = sub")
      case True
      with le show ?thesis by (subst findInStringFrom.simps) auto
    next
      case False
      have "findInStringFrom i s sub = findInStringFrom (i + 1) s sub"
        using le False by (subst findInStringFrom.simps) simp
      also have "\<dots> \<longleftrightarrow> (\<exists>j. i + 1 \<le> j \<and> j \<le> int (length s) - int (length sub) \<and>
          take (length sub) (drop (nat j) s) = sub)"
        using "1.IH" [OF le False] "1.prems" by simp
      also have "\<dots> \<longleftrightarrow> (\<exists>j. i \<le> j \<and> j \<le> int (length s) - int (length sub) \<and>
          take (length sub) (drop (nat j) s) = sub)"
      proof
        assume "\<exists>j. i + 1 \<le> j \<and> j \<le> int (length s) - int (length sub) \<and>
          take (length sub) (drop (nat j) s) = sub"
        then show "\<exists>j. i \<le> j \<and> j \<le> int (length s) - int (length sub) \<and>
          take (length sub) (drop (nat j) s) = sub"
          by (meson add_le_imp_le_right le_add_same_cancel1 order_trans zero_le_one zle_add1_eq_le less_imp_le)
      next
        assume "\<exists>j. i \<le> j \<and> j \<le> int (length s) - int (length sub) \<and>
          take (length sub) (drop (nat j) s) = sub"
        then obtain j where j: "i \<le> j" "j \<le> int (length s) - int (length sub)"
          "take (length sub) (drop (nat j) s) = sub" by blast
        with False have "j \<noteq> i" by auto
        with j have "i + 1 \<le> j" by simp
        with j show "\<exists>j. i + 1 \<le> j \<and> j \<le> int (length s) - int (length sub) \<and>
          take (length sub) (drop (nat j) s) = sub" by blast
      qed
      finally show ?thesis .
    qed
  qed
qed

lemma sublist_iff_take_drop:
  "sublist sub s \<longleftrightarrow> (\<exists>n. n + length sub \<le> length s \<and> take (length sub) (drop n s) = sub)"
proof
  assume "sublist sub s"
  then obtain ps ss where "s = ps @ sub @ ss" by (auto simp: sublist_def)
  then have "length ps + length sub \<le> length s \<and> take (length sub) (drop (length ps) s) = sub"
    by simp
  then show "\<exists>n. n + length sub \<le> length s \<and> take (length sub) (drop n s) = sub" by blast
next
  assume "\<exists>n. n + length sub \<le> length s \<and> take (length sub) (drop n s) = sub"
  then obtain n where n: "n + length sub \<le> length s" "take (length sub) (drop n s) = sub"
    by blast
  have "drop n s = take (length sub) (drop n s) @ drop (length sub) (drop n s)"
    by (rule append_take_drop_id [symmetric])
  then have "s = take n s @ take (length sub) (drop n s) @ drop (length sub) (drop n s)"
    by (metis append_take_drop_id)
  with n show "sublist sub s" unfolding sublist_def by metis
qed

lemma findInString_iff: "findInString s sub \<longleftrightarrow> sublist sub s"
proof -
  have "findInString s sub \<longleftrightarrow>
     (\<exists>j. 0 \<le> j \<and> j \<le> int (length s) - int (length sub) \<and>
          take (length sub) (drop (nat j) s) = sub)"
    unfolding findInString_def by (rule findInStringFrom_iff) simp
  also have "\<dots> \<longleftrightarrow> (\<exists>n. n + length sub \<le> length s \<and> take (length sub) (drop n s) = sub)"
  proof
    assume "\<exists>j. 0 \<le> j \<and> j \<le> int (length s) - int (length sub) \<and>
          take (length sub) (drop (nat j) s) = sub"
    then obtain j where "0 \<le> j" "j \<le> int (length s) - int (length sub)"
      "take (length sub) (drop (nat j) s) = sub" by blast
    then have "nat j + length sub \<le> length s \<and> take (length sub) (drop (nat j) s) = sub"
      by auto
    then show "\<exists>n. n + length sub \<le> length s \<and> take (length sub) (drop n s) = sub" by blast
  next
    assume "\<exists>n. n + length sub \<le> length s \<and> take (length sub) (drop n s) = sub"
    then obtain n where "n + length sub \<le> length s" "take (length sub) (drop n s) = sub"
      by blast
    then have "0 \<le> int n \<and> int n \<le> int (length s) - int (length sub) \<and>
          take (length sub) (drop (nat (int n)) s) = sub" by auto
    then show "\<exists>j. 0 \<le> j \<and> j \<le> int (length s) - int (length sub) \<and>
          take (length sub) (drop (nat j) s) = sub" by blast
  qed
  finally show ?thesis by (simp add: sublist_iff_take_drop)
qed

lemma contains_iff: "contains s sub \<longleftrightarrow> sublist sub s"
proof
  assume c: "contains s sub"
  then consider "s = sub" | "sub = []" | "take (length sub) s = sub"
    | "drop (length s - length sub) s = sub" | "findInString s sub"
    by (auto simp: contains_def)
  then show "sublist sub s"
  proof cases
    case 3
    then have "prefix sub s" by (metis take_is_prefix)
    then show ?thesis by (rule prefix_imp_sublist)
  next
    case 4
    then have "suffix sub s" by (metis suffix_drop)
    then show ?thesis by (rule suffix_imp_sublist)
  qed (simp_all add: findInString_iff)
next
  assume s: "sublist sub s"
  then have "length sub \<le> length s" by (rule sublist_length_le)
  with s show "contains s sub" by (simp add: contains_def findInString_iff)
qed

lemma containsOpus_iff:
  "containsOpus m \<longleftrightarrow> sublist ''opus'' m \<or> sublist ''claude-opus'' m \<or> sublist ''claude-3-opus'' m"
  by (simp add: containsOpus_def opusModels_def contains_iff)

lemma key_field_distinct:
  assumes inv: "\<forall>(k, v)\<in>set m. fld v = k" and d: "distinct (map fst m)"
    and ms: "mset xs = mset (map snd m)"
  shows "distinct (map fld xs)"
proof -
  have e: "map (\<lambda>e. fld (snd e)) m = map fst m"
    using inv by (induction m) auto
  from d have "distinct (map (\<lambda>e. fld (snd e)) m)" by (simp only: e)
  then have "distinct (map fld (map snd m))" by (simp add: comp_def)
  moreover have "mset (map fld xs) = mset (map fld (map snd m))"
    using ms by (metis mset_map)
  ultimately show ?thesis by (metis mset_eq_imp_distinct_iff)
qed

lemma dayMap_dates: "\<forall>(k, v)\<in>set (dayMap ss). DaySummary.Date v = k"
  unfolding dayMap_def
  by (rule group_fold_inv [where P = "\<lambda>k v. DaySummary.Date v = k"
        and skip = "\<lambda>s. IsZero (Session.StartedAt s)"
        and key = "\<lambda>s. Format_2006_01_02 (Session.StartedAt s)"
        and init = newDaySummary and upd = addToDay])
    (simp_all add: newDaySummary_def addToDay_def)

lemma dayMap_distinct: "distinct (map fst (dayMap ss))"
  unfolding dayMap_def
  by (rule group_fold_distinct [where skip = "\<lambda>s. IsZero (Session.StartedAt s)"
        and key = "\<lambda>s. Format_2006_01_02 (Session.StartedAt s)"
        and init = newDaySummary and upd = addToDay]) simp

lemma sessionTypeMap_types: "\<forall>(k, v)\<in>set (sessionTypeMap ss). SessionTypeSummary.Type v = k"
proof -
  have "\<forall>(k, v)\<in>set (foldl (\<lambda>agg s. if False then agg
           else upsert (Session.Type s) (newSessionTypeSummary (Session.Type s))
                  (addToSessionType s) agg) [] ss). SessionTypeSummary.Type v = k"
    by (rule group_fold_inv [where P = "\<lambda>k v. SessionTypeSummary.Type v = k"
        and skip = "\<lambda>s. False" and key = "Session.Type"
        and init = newSessionTypeSummary and upd = addToSessionType])
      (simp_all add: newSessionTypeSummary_def addToSessionType_def)
  then show ?thesis by (simp add: sessionTypeMap_def)
qed

lemma sessionTypeMap_distinct: "distinct (map fst (sessionTypeMap ss))"
proof -
  have "distinct (map fst (foldl (\<lambda>agg s. if False then agg
           else upsert (Session.Type s) (newSessionTypeSummary (Session.Type s))
                  (addToSessionType s) agg) [] ss))"
    by (rule group_fold_distinct [where skip = "\<lambda>s. False" and key = "Session.Type"
        and init = newSessionTypeSummary and upd = addToSessionType]) simp
  then show ?thesis by (simp add: sessionTypeMap_def)
qed

lemma aggregateByDay_distinct: "distinct (map DaySummary.Date (aggregateByDay order ss))"
  by (rule key_field_distinct [OF dayMap_dates dayMap_distinct])
    (simp add: aggregateByDay_def mset_sortSlice mset_rangeOrder)

lemma aggregateBySessionType_distinct:
  "distinct (map SessionTypeSummary.Type (aggregateBySessionType order ss))"
  by (rule key_field_distinct [OF sessionTypeMap_types sessionTypeMap_distinct])
    (simp add: aggregateBySessionType_def mset_sortSlice mset_rangeOrder)

lemma aggregateByDay_sorted:
  "sorted_wrt (\<lambda>a b. DaySummary.Date a < DaySummary.Date b) (aggregateByDay order ss)"
proof -
  have "sorted_wrt (\<lambda>a b. DaySummary.Date a \<le> DaySummary.Date b) (aggregateByDay order ss)"
    unfolding aggregateByDay_def by (rule sortSlice_asc)
  then have "sorted (map DaySummary.Date (aggregateByDay order ss))"
    by (simp add: sorted_wrt_map)
  with aggregateByDay_distinct [of order ss]
  have "sorted_wrt (<) (map DaySummary.Date (aggregateByDay order ss))"
    by (simp add: strict_sorted_iff)
  then show ?thesis by (simp add: sorted_wrt_map)
qed

section \<open>The period filter\<close>

lemma StartedAt_sessionAt [simp]: "Session.StartedAt (sessionAt t) = t"
  by (simp add: sessionAt_def mkSession_def)

lemma Period_periodConfig [simp]: "Config.Period (config (New ss (periodConfig p))) = p"
  by (simp add: New_def periodConfig_def)

lemma After_irrefl [simp]: "\<not> After t t"
  by (simp add: After_def)

lemma Before_irrefl [simp]: "\<not> Before t t"
  by (simp add: Before_def)

lemma After_zeroTime: "After t zeroTime \<Longrightarrow> \<not> IsZero t"
  by (auto simp: After_def IsZero_def zeroTime_def)

lemma filterByPeriod_all:
  "Config.Period (config r) = '''' \<or> Config.Period (config r) = ''all'' \<Longrightarrow>
   filterByPeriod r tnow ss = ss"
  by (simp add: filterByPeriod_def)

lemma filterByPeriod_today:
  "Config.Period (config r) = ''today'' \<Longrightarrow>
   filterByPeriod r tnow ss =
     filter (\<lambda>s. \<not> IsZero (Session.StartedAt s) \<and>
                  After (Session.StartedAt s)
                    (time_Date (Year tnow) (Month tnow) (Day tnow) 0 0 0 0 (Location tnow))) ss"
  by (simp add: filterByPeriod_def)

lemma filterByPeriod_yesterday:
  "Config.Period (config r) = ''yesterday'' \<Longrightarrow>
   filterByPeriod r tnow ss =
     filter (\<lambda>s. \<not> IsZero (Session.StartedAt s) \<and>
                  After (Session.StartedAt s)
                    (time_Date (Year (AddDate tnow 0 0 (- 1))) (Month (AddDate tnow 0 0 (- 1)))
                       (Day (AddDate tnow 0 0 (- 1))) 0 0 0 0
                       (Location (AddDate tnow 0 0 (- 1)))) \<and>
                  Before (Session.StartedAt s)
                    (time_Date (Year tnow) (Month tnow) (Day tnow) 0 0 0 0 (Location tnow))) ss"
  by (simp add: filterByPeriod_def Let_def)

lemma filterByPeriod_other:
  "Config.Period (config r) \<notin> {'''', ''all'', ''today'', ''yesterday'', ''week'', ''month''} \<Longrightarrow>
   filterByPeriod r tnow ss =
     filter (\<lambda>s. \<not> IsZero (Session.StartedAt s) \<and> After (Session.StartedAt s) zeroTime) ss"
  by (simp add: filterByPeriod_def)

lemma filterByPeriod_known:
  "Config.Period (config r) \<noteq> '''' \<Longrightarrow> Config.Period (config r) \<noteq> ''all'' \<Longrightarrow>
   s \<in> set (filterByPeriod r tnow ss) \<Longrightarrow> \<not> IsZero (Session.StartedAt s)"
  by (auto simp: filterByPeriod_def Let_def split: if_splits)

lemma exampleNow_value: "exampleNow = \<lparr>sec = 63908749800, nsec = 0, Location = 3600\<rparr>"
  by code_simp

lemma midnight_exampleNow:
  "time_Date (Year exampleNow) (Month exampleNow) (Day exampleNow) 0 0 0 0 (Location exampleNow)
   = time_Date 2026 3 10 0 0 0 0 3600"
  by code_simp

lemma midnight_before_exampleNow:
  "time_Date (Year (AddDate exampleNow 0 0 (- 1))) (Month (AddDate exampleNow 0 0 (- 1)))
     (Day (AddDate exampleNow 0 0 (- 1))) 0 0 0 0 (Location (AddDate exampleNow 0 0 (- 1)))
   = time_Date 2026 3 9 0 0 0 0 3600"
  by code_simp

text \<open>
  Claim C1. Under the label \<open>today\<close> the filter should keep a session that started at local
  midnight of the current date. The code compares with \<^verbatim>\<open>After\<close>, which is strict: with
  the clock at March 10, 2026, 15:30 (UTC+1), the session that started on March 10, 2026
  at 00:00:00 (UTC+1) is dropped.
\<close>

theorem C1_today_drops_local_midnight:
  "filterByPeriod (New [] (periodConfig ''today'')) exampleNow
     [sessionAt (time_Date 2026 3 10 0 0 0 0 3600) :: rat Session] = []"
  by (simp add: filterByPeriod_today midnight_exampleNow)

text \<open>
  Claim C2. Under the label \<open>yesterday\<close> the window should be closed at its lower end. The
  code compares the lower end with \<^verbatim>\<open>After\<close> as well: with the clock at March 10, 2026,
  15:30 (UTC+1), the session that started on March 9, 2026 at 00:00:00 (UTC+1) is dropped.
\<close>

theorem C2_yesterday_drops_local_midnight:
  "filterByPeriod (New [] (periodConfig ''yesterday'')) exampleNow
     [sessionAt (time_Date 2026 3 9 0 0 0 0 3600) :: rat Session] = []"
  by (simp add: filterByPeriod_yesterday midnight_exampleNow midnight_before_exampleNow)

text \<open>
  Claim C10, as stated: for a label outside the six known ones the filter returns exactly
  the sessions whose start time is not the zero value. It fails for a session that started
  before the zero instant (here June 1 of year 0, UTC): its start time is not the zero
  value, and the filter drops it.
\<close>

theorem C10_counterexample:
  "filterByPeriod (New [] (periodConfig ''quarter'')) exampleNow
     [sessionAt (time_Date 0 6 1 0 0 0 0 0) :: rat Session]
   \<noteq> filter (\<lambda>s. \<not> IsZero (Session.StartedAt s))
       [sessionAt (time_Date 0 6 1 0 0 0 0 0) :: rat Session]"
proof -
  have t: "time_Date 0 6 1 0 0 0 0 0 = \<lparr>sec = - 18489600, nsec = 0, Location = 0\<rparr>"
    by code_simp
  show ?thesis
    by (simp add: filterByPeriod_other t After_def IsZero_def zeroTime_def)
qed

text \<open>
  Claim C10, amended: for a label outside the six known ones the filter returns exactly the
  sessions that started strictly after the zero instant. The cutoff stays the zero value of
  \<^verbatim>\<open>time.Time\<close>; sessions with the zero start time are dropped, so the filter is not
  the identity, and there is no error.
\<close>

theorem C10_other_label:
  assumes "Config.Period (config r) \<notin> {'''', ''all'', ''today'', ''yesterday'', ''week'', ''month''}"
  shows "filterByPeriod r tnow ss = filter (\<lambda>s. After (Session.StartedAt s) zeroTime) ss"
proof -
  have "(\<lambda>s::'a Session. \<not> IsZero (Session.StartedAt s) \<and> After (Session.StartedAt s) zeroTime)
        = (\<lambda>s. After (Session.StartedAt s) zeroTime)"
    using After_zeroTime by blast
  with filterByPeriod_other [OF assms] show ?thesis by simp
qed

theorem C10_other_label_witness:
  "''quarter'' \<notin> {'''', ''all'', ''today'', ''yesterday'', ''week'', ''month''} \<and>
   filterByPeriod (New [] (periodConfig ''quarter'')) exampleNow
     [sessionAt zeroTime, sessionAt exampleNow :: rat Session]
   = [sessionAt exampleNow]"
  using C10_other_label [of "New [] (periodConfig ''quarter'') :: rat Reporter" exampleNow
      "[sessionAt zeroTime, sessionAt exampleNow]"]
  by (simp add: After_def zeroTime_def exampleNow_value)

text \<open>
  Claim C6. A session whose start time is the zero value passes the filter and is counted
  in the totals when the label is empty or \<open>all\<close>: the filter is then the identity and
  the totals run over all sessions of the reporter. Under \<open>today\<close>, \<open>yesterday\<close>,
  \<open>week\<close> or \<open>month\<close> no such session is left by the filter. The by-day aggregator
  never sees such a session: its result is that of the list without them.
\<close>

theorem C6_unknown_startedAt:
  fixes env :: "('f::{zero,plus,ord,inverse}) Env"
  shows
  "(Config.Period (config r) = '''' \<or> Config.Period (config r) = ''all'' \<longrightarrow>
      filterByPeriod r tnow ss = ss
      \<and> TotalSessions (Generate env r) = of_nat (length (sessions r))
      \<and> Report.TotalTokens (Generate env r) = sum_list (map (\<lambda>s. Total (Usage s)) (sessions r))
      \<and> Report.TotalCost (Generate env r)
          = foldl (+) 0 (map (\<lambda>s. CostTotal (Usage s)) (sessions r)))
   \<and> (Config.Period (config r) \<in> {''today'', ''yesterday'', ''week'', ''month''} \<longrightarrow>
        filter (\<lambda>s. IsZero (Session.StartedAt s)) (filterByPeriod r tnow ss) = [])
   \<and> aggregateByDay order ss
       = aggregateByDay order (filter (\<lambda>s. \<not> IsZero (Session.StartedAt s)) ss)"
proof (intro conjI impI)
  assume p: "Config.Period (config r) = '''' \<or> Config.Period (config r) = ''all''"
  then show "filterByPeriod r tnow ss = ss" by (rule filterByPeriod_all)
  have f: "filtered env r = sessions r"
    unfolding filtered_def using p by (rule filterByPeriod_all)
  show "TotalSessions (Generate env r) = of_nat (length (sessions r))"
    by (simp add: Generate_fields f)
  show "Report.TotalTokens (Generate env r) = sum_list (map (\<lambda>s. Total (Usage s)) (sessions r))"
    by (simp add: Generate_fields f)
  show "Report.TotalCost (Generate env r)
          = foldl (+) 0 (map (\<lambda>s. CostTotal (Usage s)) (sessions r))"
    by (simp add: Generate_fields f)
next
  assume p: "Config.Period (config r) \<in> {''today'', ''yesterday'', ''week'', ''month''}"
  then have "Config.Period (config r) \<noteq> ''''" "Config.Period (config r) \<noteq> ''all''"
    by auto
  then have "\<forall>s\<in>set (filterByPeriod r tnow ss). \<not> IsZero (Session.StartedAt s)"
    using filterByPeriod_known by blast
  then show "filter (\<lambda>s. IsZero (Session.StartedAt s)) (filterByPeriod r tnow ss) = []"
    by (simp add: filter_empty_conv)
next
  show "aggregateByDay order ss
       = aggregateByDay order (filter (\<lambda>s. \<not> IsZero (Session.StartedAt s)) ss)"
    unfolding aggregateByDay_def using dayMap_filter [of ss] by simp
qed

theorem C6_unknown_startedAt_witness:
  "(''all'' = '''' \<or> ''all'' = ''all'')
   \<and> filterByPeriod (New [sessionAt zeroTime, sessionAt exampleNow] (periodConfig ''all''))
        exampleNow [sessionAt zeroTime, sessionAt exampleNow :: rat Session]
      = [sessionAt zeroTime, sessionAt exampleNow]
   \<and> TotalSessions (Generate exampleEnv
        (New [sessionAt zeroTime, sessionAt exampleNow] (periodConfig ''all''))) = 2
   \<and> ''today'' \<in> {''today'', ''yesterday'', ''week'', ''month''}
   \<and> filterByPeriod (New [sessionAt zeroTime, sessionAt exampleNow] (periodConfig ''today''))
        exampleNow [sessionAt zeroTime, sessionAt exampleNow :: rat Session]
      = [sessionAt exampleNow]"
proof -
  let ?ss = "[sessionAt zeroTime, sessionAt exampleNow :: rat Session]"
  have a: "filterByPeriod (New ?ss (periodConfig ''all'')) exampleNow ?ss = ?ss
      \<and> TotalSessions (Generate exampleEnv (New ?ss (periodConfig ''all''))) = 2"
    using C6_unknown_startedAt [where r = "New ?ss (periodConfig ''all'')" and tnow = exampleNow
        and ss = ?ss and env = exampleEnv and order = "[]"]
    by (simp add: sessions_New)
  have "filter (\<lambda>s. IsZero (Session.StartedAt s))
          (filterByPeriod (New ?ss (periodConfig ''today'')) exampleNow ?ss) = []"
    using C6_unknown_startedAt [where r = "New ?ss (periodConfig ''today'')"
        and tnow = exampleNow and ss = ?ss and env = exampleEnv and order = "[]"]
    by simp
  have b: "filterByPeriod (New ?ss (periodConfig ''today'')) exampleNow ?ss = [sessionAt exampleNow]"
    by (simp add: filterByPeriod_today exampleNow_facts)
  from a b show ?thesis by simp
qed

section \<open>Anomalies\<close>

text \<open>
  Claim C3. The anomaly list is the concatenation, in rule order, of the flags of the
  cron sessions whose cost exceeds the threshold, of the sessions with more than 100000
  tokens, and of the sessions whose model contains one of the fragments \<open>opus\<close>,
  \<open>claude-opus\<close>, \<open>claude-3-opus\<close> as a substring and that have fewer than 5000
  tokens, each rule in input order. The flags have the types \<open>expensive_cron\<close>,
  \<open>high_token_count\<close>, \<open>opus_overkill\<close>, the severities \<open>warning\<close>,
  \<open>warning\<close>, \<open>info\<close>, and carry the cost, the id and the agent of the session. A
  session that satisfies several rules appears once per rule.
\<close>

theorem C3_detectAnomalies:
  "detectAnomalies env r ss =
     map (expensiveCron env r)
       (filter (\<lambda>s. Session.Type s = SessionTypeCron
                    \<and> CostTotal (Usage s) > Threshold (config r)) ss)
     @ map highTokenCount (filter (\<lambda>s. sint (Total (Usage s)) > 100000) ss)
     @ map opusOverkill
         (filter (\<lambda>s. (sublist ''opus'' (Usage.Model (Usage s))
                        \<or> sublist ''claude-opus'' (Usage.Model (Usage s))
                        \<or> sublist ''claude-3-opus'' (Usage.Model (Usage s)))
                      \<and> sint (Total (Usage s)) < 5000) ss)
   \<and> Anomaly.Type (expensiveCron env r s) = ''expensive_cron''
   \<and> Severity (expensiveCron env r s) = ''warning''
   \<and> Anomaly.Cost (expensiveCron env r s) = CostTotal (Usage s)
   \<and> SessionID (expensiveCron env r s) = Session.ID s
   \<and> Anomaly.Agent (expensiveCron env r s) = Session.Agent s
   \<and> Anomaly.Type (highTokenCount s) = ''high_token_count''
   \<and> Severity (highTokenCount s) = ''warning''
   \<and> Anomaly.Cost (highTokenCount s) = CostTotal (Usage s)
   \<and> SessionID (highTokenCount s) = Session.ID s
   \<and> Anomaly.Agent (highTokenCount s) = Session.Agent s
   \<and> Anomaly.Type (opusOverkill s) = ''opus_overkill''
   \<and> Severity (opusOverkill s) = ''info''
   \<and> Anomaly.Cost (opusOverkill s) = CostTotal (Usage s)
   \<and> SessionID (opusOverkill s) = Session.ID s
   \<and> Anomaly.Agent (opusOverkill s) = Session.Agent s"
proof -
  have hi: "(\<lambda>s::'a Session. 100000 <s Total (Usage s)) = (\<lambda>s. sint (Total (Usage s)) > 100000)"
    by (simp add: word_sless_alt)
  have lo: "(\<lambda>s::'a Session. containsOpus (Usage.Model (Usage s)) \<and> Total (Usage s) <s 5000)
     = (\<lambda>s. (sublist ''opus'' (Usage.Model (Usage s))
                \<or> sublist ''claude-opus'' (Usage.Model (Usage s))
                \<or> sublist ''claude-3-opus'' (Usage.Model (Usage s)))
              \<and> sint (Total (Usage s)) < 5000)"
    by (simp add: word_sless_alt containsOpus_iff)
  have "detectAnomalies env r ss =
     map (expensiveCron env r)
       (filter (\<lambda>s. Session.Type s = SessionTypeCron
                    \<and> CostTotal (Usage s) > Threshold (config r)) ss)
     @ map highTokenCount (filter (\<lambda>s. 100000 <s Total (Usage s)) ss)
     @ map opusOverkill
         (filter (\<lambda>s. containsOpus (Usage.Model (Usage s)) \<and> Total (Usage s) <s 5000) ss)"
    unfolding detectAnomalies_def Let_def foldl_append_if by simp
  then show ?thesis
    by (simp add: hi lo expensiveCron_def highTokenCount_def opusOverkill_def)
qed

section \<open>The report\<close>

text \<open>
  Claim C5. \<^verbatim>\<open>Generate\<close> fills the by-agent, by-kind, by-model and by-day lists and
  the anomaly list from the filtered sessions whatever the configuration; the by-cron list
  is assigned exactly when \<^verbatim>\<open>Crons\<close> or \<^verbatim>\<open>Full\<close> is set, the session details
  exactly when \<^verbatim>\<open>Full\<close> is set. The session details are the details of the sessions
  given, in non-increasing order of cost.
\<close>

theorem C5_generate_dimensions:
  fixes env :: "('f::{zero,plus,ord,inverse}) Env" and ds :: "('g::linorder) Session list"
  shows
  "ByAgent (Generate env r) = aggregateByAgent (agentOrder env) (filtered env r)
   \<and> BySessionType (Generate env r)
       = aggregateBySessionType (sessionTypeOrder env) (filtered env r)
   \<and> ByModel (Generate env r) = aggregateByModel (modelOrder env) (filtered env r)
   \<and> ByDay (Generate env r) = aggregateByDay (dayOrder env) (filtered env r)
   \<and> ByCron (Generate env r)
       = (if Crons (config r) \<or> Full (config r)
          then Some (aggregateByCron (float64 env) (cronOrder env) (filtered env r)) else None)
   \<and> Report.Sessions (Generate env r)
       = (if Full (config r) then Some (getSessionDetails (filtered env r)) else None)
   \<and> Anomalies (Generate env r) = detectAnomalies env r (filtered env r)
   \<and> mset (getSessionDetails ds) = mset (map sessionDetail ds)
   \<and> sorted_wrt (\<lambda>a b. SessionDetail.Cost a \<ge> SessionDetail.Cost b) (getSessionDetails ds)"
  by (simp add: Generate_fields getSessionDetails_def mset_sortSlice sortSlice_desc)

text \<open>
  Claim C8. In every generated report the by-agent, by-model, by-cron and session-detail
  lists are in non-increasing order of cost, for costs that are linearly ordered (as
  \<^verbatim>\<open>float64\<close> values other than NaN are); the by-day list is in non-decreasing order of
  its date string, the dates being pairwise distinct; and the by-kind list is ordered by
  the rank of its kind, 0 for interactive, 1 for cron, 2 for subagent, with no kind twice.
\<close>

theorem C8_orderings:
  fixes env :: "('f::{zero,plus,linorder,inverse}) Env"
  shows
  "sorted_wrt (\<lambda>a b. AgentSummary.TotalCost a \<ge> AgentSummary.TotalCost b)
     (ByAgent (Generate env r))
   \<and> sorted_wrt (\<lambda>a b. ModelSummary.TotalCost a \<ge> ModelSummary.TotalCost b)
       (ByModel (Generate env r))
   \<and> (case ByCron (Generate env r) of None \<Rightarrow> True
       | Some cs \<Rightarrow> sorted_wrt (\<lambda>a b. CronSummary.TotalCost a \<ge> CronSummary.TotalCost b) cs)
   \<and> (case Report.Sessions (Generate env r) of None \<Rightarrow> True
       | Some ds \<Rightarrow> sorted_wrt (\<lambda>a b. SessionDetail.Cost a \<ge> SessionDetail.Cost b) ds)
   \<and> sorted_wrt (\<lambda>a b. DaySummary.Date a \<le> DaySummary.Date b) (ByDay (Generate env r))
   \<and> distinct (map DaySummary.Date (ByDay (Generate env r)))
   \<and> sorted_wrt (\<lambda>a b. typeOrder (SessionTypeSummary.Type a)
                        \<le> typeOrder (SessionTypeSummary.Type b))
       (BySessionType (Generate env r))
   \<and> distinct (map SessionTypeSummary.Type (BySessionType (Generate env r)))
   \<and> typeOrder SessionTypeInteractive = 0 \<and> typeOrder SessionTypeCron = 1
   \<and> typeOrder SessionTypeSubagent = 2"
proof (intro conjI)
  show "sorted_wrt (\<lambda>a b. AgentSummary.TotalCost a \<ge> AgentSummary.TotalCost b)
     (ByAgent (Generate env r))"
    by (simp add: Generate_fields aggregateByAgent_def sortSlice_desc)
  show "sorted_wrt (\<lambda>a b. ModelSummary.TotalCost a \<ge> ModelSummary.TotalCost b)
       (ByModel (Generate env r))"
    by (simp add: Generate_fields aggregateByModel_def sortSlice_desc)
  show "case ByCron (Generate env r) of None \<Rightarrow> True
       | Some cs \<Rightarrow> sorted_wrt (\<lambda>a b. CronSummary.TotalCost a \<ge> CronSummary.TotalCost b) cs"
    by (simp add: Generate_fields aggregateByCron_def sortSlice_desc)
  show "case Report.Sessions (Generate env r) of None \<Rightarrow> True
       | Some ds \<Rightarrow> sorted_wrt (\<lambda>a b. SessionDetail.Cost a \<ge> SessionDetail.Cost b) ds"
    by (simp add: Generate_fields getSessionDetails_def sortSlice_desc)
  show "sorted_wrt (\<lambda>a b. DaySummary.Date a \<le> DaySummary.Date b) (ByDay (Generate env r))"
    by (simp add: Generate_fields aggregateByDay_def sortSlice_asc)
  show "distinct (map DaySummary.Date (ByDay (Generate env r)))"
    by (simp add: Generate_fields aggregateByDay_distinct)
  show "sorted_wrt (\<lambda>a b. typeOrder (SessionTypeSummary.Type a)
                        \<le> typeOrder (SessionTypeSummary.Type b))
       (BySessionType (Generate env r))"
    by (simp add: Generate_fields aggregateBySessionType_def sortSlice_asc)
  show "distinct (map SessionTypeSummary.Type (BySessionType (Generate env r)))"
    by (simp add: Generate_fields aggregateBySessionType_distinct)
qed (simp_all add: typeOrder_def)

end
